theory Spec2Isabelle
  imports Main
begin

unbundle bit_operations_syntax

section \<open>The fingerprint store (hashtheplanet/sql/db_connector.py)\<close>

subsection \<open>Rows, tables and the session\<close>

text \<open>
  The three mapped classes of the module. \<open>Version\<close> and \<open>File\<close> have a composite
  primary key, \<open>Hash\<close> is keyed by its \<open>hash\<close> column. The \<open>versions\<close> column of
  \<open>Hash\<close> holds the JSON document \<^verbatim>\<open>{"versions": [...]}\<close>; the model keeps the list
  under that key, which is what \<^verbatim>\<open>loads(entry.versions)["versions"]\<close> reads back from
  what \<^verbatim>\<open>JSONEncoder().encode({"versions": ...})\<close> wrote.
\<close>

record Version =
  version_technology :: string
  version_version :: string

record File =
  file_technology :: string
  file_path :: string

record Hash =
  hash_hash :: string
  hash_technology :: string
  hash_versions :: "string list"

text \<open>
  A session is the content of the three tables, rows in insertion order. Pending rows are
  visible to the next query of the same session (the session flushes before it executes a
  statement).
\<close>

record session =
  version_table :: "Version list"
  file_table :: "File list"
  hash_table :: "Hash list"

definition empty_session :: session where
  "empty_session = \<lparr>version_table = [], file_table = [], hash_table = []\<rparr>"

text \<open>The exceptions that the modelled code can meet.\<close>

datatype exc = MultipleResultsFound | IntegrityError | GitCommandError | RetrievalError | ValueError

text \<open>
  \<^verbatim>\<open>Result.scalar_one_or_none()\<close>: no row gives \<^verbatim>\<open>None\<close>, one row gives the row, more
  than one raises.
\<close>

fun scalar_one_or_none :: "'a list \<Rightarrow> exc + 'a option" where
  "scalar_one_or_none [] = Inr None"
| "scalar_one_or_none [x] = Inr (Some x)"
| "scalar_one_or_none (x # y # zs) = Inl MultipleResultsFound"

text \<open>
  \<^verbatim>\<open>session.add(row)\<close>: the row joins its table; the database refuses a second row with
  the same primary key.
\<close>

definition add_version :: "session \<Rightarrow> Version \<Rightarrow> exc + session" where
  "add_version s r =
     (if \<exists>x \<in> set (version_table s).
           version_technology x = version_technology r \<and> version_version x = version_version r
      then Inl IntegrityError
      else Inr (s\<lparr>version_table := version_table s @ [r]\<rparr>))"

definition add_file :: "session \<Rightarrow> File \<Rightarrow> exc + session" where
  "add_file s r =
     (if \<exists>x \<in> set (file_table s).
           file_technology x = file_technology r \<and> file_path x = file_path r
      then Inl IntegrityError
      else Inr (s\<lparr>file_table := file_table s @ [r]\<rparr>))"

definition add_hash :: "session \<Rightarrow> Hash \<Rightarrow> exc + session" where
  "add_hash s r =
     (if \<exists>x \<in> set (hash_table s). hash_hash x = hash_hash r
      then Inl IntegrityError
      else Inr (s\<lparr>hash_table := hash_table s @ [r]\<rparr>))"

subsection \<open>Python values and \<open>str\<close>\<close>

text \<open>
  \<^verbatim>\<open>insert_version\<close> accepts any value for \<^verbatim>\<open>version\<close> and stores \<^verbatim>\<open>str(version)\<close>.
  The values modelled are strings and (unbounded) integers; \<^verbatim>\<open>str\<close> of an integer is its
  decimal numeral, with a leading minus sign when negative.
\<close>

datatype pyval = PyStr string | PyInt int

definition digit_char :: "nat \<Rightarrow> char" where
  "digit_char d = ''0123456789'' ! d"

fun str_nat :: "nat \<Rightarrow> string" where
  "str_nat n = (if n < 10 then [digit_char n] else str_nat (n div 10) @ [digit_char (n mod 10)])"

declare str_nat.simps [simp del]

fun str :: "pyval \<Rightarrow> string" where
  "str (PyStr s) = s"
| "str (PyInt i) = (if i < 0 then CHR ''-'' # str_nat (nat (- i)) else str_nat (nat i))"

subsection \<open>The write operations\<close>

text \<open>\<^verbatim>\<open>DbConnector.insert_version\<close>\<close>

definition insert_version :: "session \<Rightarrow> string \<Rightarrow> pyval \<Rightarrow> exc + session" where
  "insert_version s technology version =
     (case scalar_one_or_none
             (filter (\<lambda>r. version_technology r = technology \<and> version_version r = str version)
                (version_table s)) of
        Inl e \<Rightarrow> Inl e
      | Inr None \<Rightarrow>
          add_version s \<lparr>version_technology = technology, version_version = str version\<rparr>
      | Inr (Some entry) \<Rightarrow> Inr s)"

text \<open>\<^verbatim>\<open>DbConnector.insert_versions\<close>: the loop over the given versions.\<close>

fun insert_versions :: "session \<Rightarrow> string \<Rightarrow> pyval list \<Rightarrow> exc + session" where
  "insert_versions s technology [] = Inr s"
| "insert_versions s technology (version # versions) =
     (case insert_version s technology version of
        Inl e \<Rightarrow> Inl e
      | Inr s' \<Rightarrow> insert_versions s' technology versions)"

text \<open>\<^verbatim>\<open>DbConnector.insert_file\<close>\<close>

definition insert_file :: "session \<Rightarrow> string \<Rightarrow> string \<Rightarrow> exc + session" where
  "insert_file s technology path =
     (case scalar_one_or_none
             (filter (\<lambda>r. file_technology r = technology \<and> file_path r = path) (file_table s)) of
        Inl e \<Rightarrow> Inl e
      | Inr None \<Rightarrow> add_file s \<lparr>file_technology = technology, file_path = path\<rparr>
      | Inr (Some entry) \<Rightarrow> Inr s)"

text \<open>
  \<^verbatim>\<open>DbConnector.insert_or_update_hash\<close>. The \<^verbatim>\<open>UPDATE ... WHERE hash = hash_value\<close>
  rewrites the \<open>versions\<close> column of every row with that key and touches no other column.
\<close>

definition update_versions :: "session \<Rightarrow> string \<Rightarrow> string list \<Rightarrow> session" where
  "update_versions s hash_value new_versions =
     s\<lparr>hash_table :=
          map (\<lambda>r. if hash_hash r = hash_value then r\<lparr>hash_versions := new_versions\<rparr> else r)
            (hash_table s)\<rparr>"

definition insert_or_update_hash :: "session \<Rightarrow> string \<Rightarrow> string \<Rightarrow> string \<Rightarrow> exc + session" where
  "insert_or_update_hash s hash_value technology version =
     (case scalar_one_or_none (filter (\<lambda>r. hash_hash r = hash_value) (hash_table s)) of
        Inl e \<Rightarrow> Inl e
      | Inr None \<Rightarrow>
          add_hash s \<lparr>hash_hash = hash_value, hash_technology = technology,
                      hash_versions = [version]\<rparr>
      | Inr (Some entry) \<Rightarrow>
          (let existing_versions = hash_versions entry in
           if version \<notin> set existing_versions
           then Inr (update_versions s hash_value (existing_versions @ [version]))
           else Inr s))"

subsection \<open>The read accessors\<close>

text \<open>\<^verbatim>\<open>DbConnector.get_versions\<close>, \<^verbatim>\<open>get_all_hashs\<close> and \<^verbatim>\<open>find_hash\<close>.\<close>

definition get_versions :: "session \<Rightarrow> string \<Rightarrow> Version list" where
  "get_versions s technology = filter (\<lambda>r. version_technology r = technology) (version_table s)"

definition get_all_hashs :: "session \<Rightarrow> Hash list" where
  "get_all_hashs s = hash_table s"

definition find_hash :: "session \<Rightarrow> string \<Rightarrow> (string \<times> string list) option" where
  "find_hash s hash_str =
     (case filter (\<lambda>r. hash_hash r = hash_str) (hash_table s) of
        [] \<Rightarrow> None
      | r # _ \<Rightarrow> Some (hash_technology r, hash_versions r))"

subsection \<open>Operations and reachable stores\<close>

datatype op =
    InsertVersion string pyval
  | InsertFile string string
  | InsertOrUpdateHash string string string

fun apply_op :: "session \<Rightarrow> op \<Rightarrow> exc + session" where
  "apply_op s (InsertVersion technology version) = insert_version s technology version"
| "apply_op s (InsertFile technology path) = insert_file s technology path"
| "apply_op s (InsertOrUpdateHash hash_value technology version) =
     insert_or_update_hash s hash_value technology version"

inductive reachable :: "session \<Rightarrow> bool" where
  reachable_empty: "reachable empty_session"
| reachable_step: "reachable s \<Longrightarrow> apply_op s operation = Inr s' \<Longrightarrow> reachable s'"

text \<open>The primary key of the hash table: no two rows with the same \<open>hash\<close>.\<close>

definition hash_pk :: "session \<Rightarrow> bool" where
  "hash_pk s = distinct (map hash_hash (hash_table s))"

text \<open>
  The invariant of the hash table: the primary key holds and no row lists a version twice.
\<close>

definition hash_inv :: "session \<Rightarrow> bool" where
  "hash_inv s = (hash_pk s \<and> (\<forall>r \<in> set (hash_table s). distinct (hash_versions r)))"

text \<open>
  \<open>grows s s'\<close>: every hash row of \<open>s\<close> is still present in \<open>s'\<close>, under the same key,
  with at least the versions it had.
\<close>

definition grows :: "session \<Rightarrow> session \<Rightarrow> bool" where
  "grows s s' = (\<forall>r \<in> set (hash_table s). \<exists>r' \<in> set (hash_table s').
       hash_hash r' = hash_hash r \<and> set (hash_versions r) \<subseteq> set (hash_versions r'))"

text \<open>Two concrete stores, used to instantiate the theorems below.\<close>

definition one_hash_session :: session where
  "one_hash_session = \<lparr>version_table = [], file_table = [],
     hash_table = [\<lparr>hash_hash = ''h1'', hash_technology = ''T'', hash_versions = [''1.2.3'']\<rparr>]\<rparr>"

definition two_version_session :: session where
  "two_version_session = \<lparr>version_table = [], file_table = [],
     hash_table = [\<lparr>hash_hash = ''h1'', hash_technology = ''T'',
                    hash_versions = [''1.2.3'', ''1.2.4'']\<rparr>]\<rparr>"

text \<open>The primary key of the version table: no two rows with the same pair.\<close>

definition version_pk :: "session \<Rightarrow> bool" where
  "version_pk s = distinct (map (\<lambda>r. (version_technology r, version_version r)) (version_table s))"

text \<open>The store after \<^verbatim>\<open>insert_version(session, "T", 1)\<close> on the empty store.\<close>

definition one_version_session :: session where
  "one_version_session =
     \<lparr>version_table = [\<lparr>version_technology = ''T'', version_version = ''1''\<rparr>],
      file_table = [], hash_table = []\<rparr>"

subsection \<open>Static files: the \<^verbatim>\<open>REGEXP\<close> filter of \<^verbatim>\<open>get_static_files\<close>\<close>

text \<open>
  \<^verbatim>\<open>File.path.regexp_match(pattern)\<close> is evaluated, on SQLite, by Python's
  \<^verbatim>\<open>re.search(pattern, path)\<close>. The fragment of regular expressions that the pattern uses:
  a character class, a literal, sequence, alternative, one-or-more repetition and the
  anchor \<^verbatim>\<open>$\<close>.
\<close>

datatype regex =
    Class "char \<Rightarrow> bool"
  | Lit string
  | Seq regex regex
  | Alt regex regex
  | Plus regex
  | EndOfString

text \<open>
  \<open>match_re r s\<close> lists, for every way in which \<open>r\<close> matches a prefix of \<open>s\<close>, what is
  left of \<open>s\<close>. The anchor \<^verbatim>\<open>$\<close> matches at the end of the string and just before a
  newline that ends the string. A repetition goes round again only after an iteration that
  consumed something.
\<close>

fun match_re :: "regex \<Rightarrow> string \<Rightarrow> string list" where
  "match_re (Class P) s = (case s of [] \<Rightarrow> [] | c # cs \<Rightarrow> if P c then [cs] else [])"
| "match_re (Lit l) s = (if take (length l) s = l then [drop (length l) s] else [])"
| "match_re (Seq a b) s = concat (map (match_re b) (match_re a s))"
| "match_re (Alt a b) s = match_re a s @ match_re b s"
| "match_re (Plus a) s =
     concat (map (\<lambda>s'. s' # (if length s' < length s then match_re (Plus a) s' else []))
               (match_re a s))"
| "match_re EndOfString s = (if s = [] \<or> s = [CHR 0x0A] then [s] else [])"

declare match_re.simps(5) [simp del]

text \<open>\<^verbatim>\<open>re.search\<close>: the pattern may match at any position of the string.\<close>

fun suffixes_of :: "string \<Rightarrow> string list" where
  "suffixes_of [] = [[]]"
| "suffixes_of (c # cs) = (c # cs) # suffixes_of cs"

definition re_search :: "regex \<Rightarrow> string \<Rightarrow> bool" where
  "re_search r s = list_ex (\<lambda>t. match_re r t \<noteq> []) (suffixes_of s)"

text \<open>
  The pattern \<^verbatim>\<open>([a-zA-Z0-9\s_\\.\-\(\):])+(.html|.md|.txt)$\<close>. Inside the class the dot
  is literal; in the three alternatives it is not escaped and stands for any character
  but a newline. \<^verbatim>\<open>\s\<close> is Python's whitespace, here for the characters below 256.
\<close>

definition in_range :: "char \<Rightarrow> char \<Rightarrow> char \<Rightarrow> bool" where
  "in_range lo hi c = ((of_char lo :: nat) \<le> of_char c \<and> (of_char c :: nat) \<le> of_char hi)"

definition is_space :: "char \<Rightarrow> bool" where
  "is_space c = (let n = (of_char c :: nat) in
     (9 \<le> n \<and> n \<le> 13) \<or> (28 \<le> n \<and> n \<le> 32) \<or> n = 133 \<or> n = 160)"

definition static_class :: "char \<Rightarrow> bool" where
  "static_class c =
     (in_range CHR ''a'' CHR ''z'' c \<or> in_range CHR ''A'' CHR ''Z'' c
      \<or> in_range CHR ''0'' CHR ''9'' c
      \<or> is_space c \<or> c = CHR ''_'' \<or> c = CHR 0x5C \<or> c = CHR ''.'' \<or> c = CHR ''-''
      \<or> c = CHR ''('' \<or> c = CHR '')'' \<or> c = CHR '':'')"

definition any_char :: "char \<Rightarrow> bool" where
  "any_char c = (c \<noteq> CHR 0x0A)"

definition static_files_pattern :: regex where
  "static_files_pattern =
     Seq (Plus (Class static_class))
       (Seq (Alt (Seq (Class any_char) (Lit ''html''))
              (Alt (Seq (Class any_char) (Lit ''md'')) (Seq (Class any_char) (Lit ''txt''))))
          EndOfString)"

text \<open>\<^verbatim>\<open>DbConnector.get_static_files\<close>: the paths of the file rows that the filter keeps.\<close>

definition get_static_files :: "session \<Rightarrow> string list" where
  "get_static_files s =
     map file_path (filter (\<lambda>r. re_search static_files_pattern (file_path r)) (file_table s))"

text \<open>
  What the docstring of \<^verbatim>\<open>get_static_files\<close> announces: the path ends with
  \<^verbatim>\<open>.html\<close>, \<^verbatim>\<open>.md\<close> or \<^verbatim>\<open>.txt\<close>.
\<close>

definition ends_with :: "string \<Rightarrow> string \<Rightarrow> bool" where
  "ends_with ext p = (length ext \<le> length p \<and> drop (length p - length ext) p = ext)"

definition has_static_extension :: "string \<Rightarrow> bool" where
  "has_static_extension p = (ends_with ''.html'' p \<or> ends_with ''.md'' p \<or> ends_with ''.txt'' p)"

text \<open>A store whose file table lists the given paths for technology \<open>T\<close>.\<close>

definition files_session :: "string list \<Rightarrow> session" where
  "files_session paths =
     \<lparr>version_table = [],
      file_table = map (\<lambda>p. \<lparr>file_technology = ''T'', file_path = p\<rparr>) paths,
      hash_table = []\<rparr>"

section \<open>The git pipeline (hashtheplanet/resources/git_resource.py)\<close>

text \<open>
  Of this module the sources at hand hold the unit tests only
  (tests/resources/test_git_resource.py). Its functions are modelled from the
  specification; the objects of the version-control library are modelled as the unit
  tests build them (\<^verbatim>\<open>MockBlob\<close>, \<^verbatim>\<open>MockDiff\<close>, \<^verbatim>\<open>MockTag\<close>, \<^verbatim>\<open>MockCommit\<close>).
\<close>

subsection \<open>Objects of the version-control library\<close>

text \<open>
  A tree entry carries a file mode, a path and a content address. A diff entry has an old
  side \<open>a_blob\<close> and a new side \<open>b_blob\<close>, either of which may be absent. A commit gives the
  entries of its tree in traversal order; a tag names a commit; a repository lists its
  tags in its own order.
\<close>

record blob =
  blob_mode :: int
  blob_path :: string
  blob_hexsha :: string

record git_diff =
  a_blob :: "blob option"
  b_blob :: "blob option"

record commit =
  commit_tree :: "blob list"

record tag =
  tag_name :: string
  tag_commit :: commit

record repo =
  repo_tags :: "tag list"

text \<open>
  The file type of a mode, as in Python's \<^verbatim>\<open>stat\<close> module: \<^verbatim>\<open>S_IFMT(mode) = mode & 0o170000\<close>,
  a regular file has type \<^verbatim>\<open>0o100000\<close>, a directory \<^verbatim>\<open>0o040000\<close>.
\<close>

definition S_IFMT :: "int \<Rightarrow> int" where
  "S_IFMT mode = mode AND 0xF000"

definition S_ISREG :: "int \<Rightarrow> bool" where
  "S_ISREG mode = (S_IFMT mode = 0x8000)"

definition S_ISDIR :: "int \<Rightarrow> bool" where
  "S_ISDIR mode = (S_IFMT mode = 0x4000)"

subsection \<open>Tree Walker\<close>

text \<open>
  Modelled from the spec: \<^verbatim>\<open>GitResource.get_all_files_from_commit\<close> is missing from the
  sources. Section 4.2: each tree entry carries a file mode and a content address; entries
  whose mode denotes a directory or another non-regular-file type are excluded, only
  regular-file entries are emitted, as an ordered sequence of (path, contentAddress) pairs.
\<close>

fun get_all_files_loop :: "(string \<times> string) list \<Rightarrow> blob list \<Rightarrow> (string \<times> string) list" where
  "get_all_files_loop file_list [] = file_list"
| "get_all_files_loop file_list (b # bs) =
     (if S_ISREG (blob_mode b)
      then get_all_files_loop (file_list @ [(blob_path b, blob_hexsha b)]) bs
      else get_all_files_loop file_list bs)"

definition get_all_files_from_commit :: "commit \<Rightarrow> (string \<times> string) list" where
  "get_all_files_from_commit c = get_all_files_loop [] (commit_tree c)"

text \<open>
  Modelled from the spec: \<^verbatim>\<open>GitResource._get_tag_files\<close> is missing from the sources.
  Section 4.2: the pairs of the baseline tag, annotated with the version label of that tag.
\<close>

definition get_tag_files :: "tag \<Rightarrow> (string \<times> string \<times> string) list" where
  "get_tag_files t =
     map (\<lambda>(p, h). (p, tag_name t, h)) (get_all_files_from_commit (tag_commit t))"

subsection \<open>Diff Walker\<close>

text \<open>
  Modelled from the spec: \<^verbatim>\<open>GitResource._get_changes_between_two_tags\<close> is missing from
  the sources. Section 4.3: for each differing entry between the commits of tagA and tagB,
  if the entry exists on tagB's side, emit (path, tagB.versionLabel, contentAddress of the
  new side); if it exists only on tagA's side (pure deletion), emit nothing. The diff of
  two commits is computed by the version-control library and is a parameter here.
\<close>

fun get_changes_loop ::
  "string \<Rightarrow> (string \<times> string \<times> string) list \<Rightarrow> git_diff list \<Rightarrow> (string \<times> string \<times> string) list"
where
  "get_changes_loop version files [] = files"
| "get_changes_loop version files (d # ds) =
     (case b_blob d of
        Some b \<Rightarrow> get_changes_loop version (files @ [(blob_path b, version, blob_hexsha b)]) ds
      | None \<Rightarrow> get_changes_loop version files ds)"

definition get_changes_between_two_tags ::
  "(commit \<Rightarrow> commit \<Rightarrow> git_diff list) \<Rightarrow> tag \<Rightarrow> tag \<Rightarrow> (string \<times> string \<times> string) list"
where
  "get_changes_between_two_tags diff tag_a tag_b =
     get_changes_loop (tag_name tag_b) [] (diff (tag_commit tag_a) (tag_commit tag_b))"

text \<open>
  Modelled from the spec: \<^verbatim>\<open>GitResource._get_diff_files\<close> is missing from the sources.
  Section 4.3: the Diff Walker is applied to every consecutive pair of the tag sequence
  and the results are concatenated into one ordered sequence.
\<close>

fun get_diff_files ::
  "(commit \<Rightarrow> commit \<Rightarrow> git_diff list) \<Rightarrow> tag list \<Rightarrow> (string \<times> string \<times> string) list"
where
  "get_diff_files diff (tag_a # tag_b # tags) =
     get_changes_between_two_tags diff tag_a tag_b @ get_diff_files diff (tag_b # tags)"
| "get_diff_files diff tags = []"

subsection \<open>Half-open interval of versions\<close>

text \<open>
  Modelled from the spec: \<^verbatim>\<open>GitResource._get_diff_versions\<close> is missing from the sources.
  Section 8: over an ordered version list, the helper returns every label from \<open>first\<close> up
  to but excluding \<open>last\<close>. The scan starts to collect at \<open>first\<close> and stops at \<open>last\<close>.
\<close>

fun get_diff_versions_loop ::
  "bool \<Rightarrow> string \<Rightarrow> string \<Rightarrow> string list \<Rightarrow> tag list \<Rightarrow> string list"
where
  "get_diff_versions_loop started first_version last_version diff_versions [] = diff_versions"
| "get_diff_versions_loop started first_version last_version diff_versions (t # ts) =
     (if tag_name t = last_version then diff_versions
      else if started \<or> tag_name t = first_version
      then get_diff_versions_loop True first_version last_version
             (diff_versions @ [tag_name t]) ts
      else get_diff_versions_loop False first_version last_version diff_versions ts)"

definition get_diff_versions :: "string \<Rightarrow> string \<Rightarrow> tag list \<Rightarrow> string list" where
  "get_diff_versions first_version last_version versions =
     get_diff_versions_loop False first_version last_version [] versions"

subsection \<open>Content Hasher\<close>

text \<open>
  Modelled from the spec: \<^verbatim>\<open>GitResource._hash_files\<close> is missing from the sources.
  Section 4.4: for each (path, version, contentAddress) entry the raw bytes are retrieved
  by content address and a digest is computed over them; when the retrieval or the
  computation fails for an entry, the entry is dropped and processing continues. The
  output is the ordered sequence of (path, version, contentHash) triples of the entries
  hashed successfully. Retrieval and digest are parameters; either may fail.
\<close>

fun hash_files_loop ::
  "(string \<Rightarrow> exc + string) \<Rightarrow> (string \<Rightarrow> exc + string) \<Rightarrow>
   (string \<times> string \<times> string) list \<Rightarrow> (string \<times> string \<times> string) list \<Rightarrow>
   (string \<times> string \<times> string) list"
where
  "hash_files_loop retrieve get_hash files_info [] = files_info"
| "hash_files_loop retrieve get_hash files_info ((p, v, a) # rest) =
     (case retrieve a of
        Inl e \<Rightarrow> hash_files_loop retrieve get_hash files_info rest
      | Inr content \<Rightarrow>
          (case get_hash content of
             Inl e \<Rightarrow> hash_files_loop retrieve get_hash files_info rest
           | Inr h \<Rightarrow> hash_files_loop retrieve get_hash (files_info @ [(p, v, h)]) rest))"

definition hash_files ::
  "(string \<Rightarrow> exc + string) \<Rightarrow> (string \<Rightarrow> exc + string) \<Rightarrow>
   (string \<times> string \<times> string) list \<Rightarrow> (string \<times> string \<times> string) list"
where
  "hash_files retrieve get_hash git_files_metadata =
     hash_files_loop retrieve get_hash [] git_files_metadata"

text \<open>Whether the Content Hasher can hash an entry: retrieval and digest both succeed.\<close>

definition hashes_to ::
  "(string \<Rightarrow> exc + string) \<Rightarrow> (string \<Rightarrow> exc + string) \<Rightarrow> string \<Rightarrow> string option"
where
  "hashes_to retrieve get_hash a =
     (case retrieve a of
        Inl e \<Rightarrow> None
      | Inr content \<Rightarrow> (case get_hash content of Inl e \<Rightarrow> None | Inr h \<Rightarrow> Some h))"

subsection \<open>Ingestion and the orchestrator\<close>

text \<open>
  Modelled from the spec: \<^verbatim>\<open>GitResource._save_hashes\<close> is missing from the sources.
  Section 4.5, \<open>ingest\<close>: within one unit of work, register all versions once, then for
  every (path, version, contentHash) triple register the file and record the hash.
\<close>

fun save_files :: "session \<Rightarrow> string \<Rightarrow> (string \<times> string \<times> string) list \<Rightarrow> exc + session" where
  "save_files s technology [] = Inr s"
| "save_files s technology ((p, v, h) # rest) =
     (case insert_file s technology p of
        Inl e \<Rightarrow> Inl e
      | Inr s1 \<Rightarrow>
          (case insert_or_update_hash s1 h technology v of
             Inl e \<Rightarrow> Inl e
           | Inr s2 \<Rightarrow> save_files s2 technology rest))"

definition save_hashes ::
  "session \<Rightarrow> (string \<times> string \<times> string) list \<Rightarrow> tag list \<Rightarrow> string \<Rightarrow> exc + session"
where
  "save_hashes s files_metadata tags technology =
     (case insert_versions s technology (map (\<lambda>t. PyStr (tag_name t)) tags) of
        Inl e \<Rightarrow> Inl e
      | Inr s1 \<Rightarrow> save_files s1 technology files_metadata)"

text \<open>
  Modelled from the spec: \<^verbatim>\<open>GitResource.clone_checkout_and_compute_hashs\<close> is missing
  from the sources. Section 4.6: acquire the repository, abort on failure; enumerate the
  tags, abort if there are none; snapshot the first tag, diff the following pairs of tags,
  hash the concatenation of both, ingest the result under the technology label. The clone
  operation of the version-control library is a parameter; it fails with an error or
  gives the repository. A run returns how it ended and the store it leaves; an exception
  of the store itself is passed on.
\<close>

datatype outcome = AcquisitionFailure exc | NoTags | Completed

definition clone_checkout_and_compute_hashs ::
  "(string \<Rightarrow> exc + repo) \<Rightarrow> (commit \<Rightarrow> commit \<Rightarrow> git_diff list) \<Rightarrow>
   (string \<Rightarrow> exc + string) \<Rightarrow> (string \<Rightarrow> exc + string) \<Rightarrow>
   session \<Rightarrow> string \<Rightarrow> string \<Rightarrow> exc + (outcome \<times> session)"
where
  "clone_checkout_and_compute_hashs clone_repository diff retrieve get_hash s repo_url technology =
     (case clone_repository repo_url of
        Inl e \<Rightarrow> Inr (AcquisitionFailure e, s)
      | Inr repository \<Rightarrow>
          (case repo_tags repository of
             [] \<Rightarrow> Inr (NoTags, s)
           | first_tag # tags \<Rightarrow>
               (let files = get_tag_files first_tag @ get_diff_files diff (first_tag # tags);
                    files_metadata = hash_files retrieve get_hash files
                in case save_hashes s files_metadata (first_tag # tags) technology of
                     Inl e \<Rightarrow> Inl e
                   | Inr s' \<Rightarrow> Inr (Completed, s'))))"

subsection \<open>The fixtures of the unit tests\<close>

text \<open>
  The objects that tests/resources/test_git_resource.py builds: the three tree entries of
  \<^verbatim>\<open>test_get_all_files_from_commit\<close>, the three diff entries and the tag of
  \<^verbatim>\<open>test_get_changes_between_two_tags\<close>, the five tags of \<^verbatim>\<open>test_get_diff_versions\<close>,
  and the blob store and the entries of \<^verbatim>\<open>test_hash_files\<close>.
\<close>

definition MockBlob :: "int \<Rightarrow> string \<Rightarrow> string \<Rightarrow> blob" where
  "MockBlob m p h = \<lparr>blob_mode = m, blob_path = p, blob_hexsha = h\<rparr>"

definition MockDiff :: "blob option \<Rightarrow> blob option \<Rightarrow> git_diff" where
  "MockDiff a b = \<lparr>a_blob = a, b_blob = b\<rparr>"

definition MockTag :: "string \<Rightarrow> tag" where
  "MockTag n = \<lparr>tag_name = n, tag_commit = \<lparr>commit_tree = []\<rparr>\<rparr>"

definition license_blob :: blob where
  "license_blob = MockBlob 33188 ''LICENSE'' ''d159169d1050894d3ea3b98e1c965c4058208fe1''"

definition dist_blob :: blob where
  "dist_blob = MockBlob 16384 ''dist'' ''29a422c19251aeaeb907175e9b3219a9bed6c616''"

definition setup_cfg_blob :: blob where
  "setup_cfg_blob = MockBlob 33188 ''setup.cfg'' ''e42f952edc48e2c085c206166bf4f1ead4d4b058''"

definition test_commit :: commit where
  "test_commit = \<lparr>commit_tree = [license_blob, dist_blob, setup_cfg_blob]\<rparr>"

definition test_diff :: "commit \<Rightarrow> commit \<Rightarrow> git_diff list" where
  "test_diff c c' =
     [MockDiff (Some dist_blob) None, MockDiff None (Some license_blob),
      MockDiff (Some setup_cfg_blob) None]"

definition test_versions :: "tag list" where
  "test_versions = [MockTag ''1.2.3'', MockTag ''1.2.4'', MockTag ''1.3'', MockTag ''1.4'',
                    MockTag ''1.5.0'']"

definition test_blobs :: "string \<Rightarrow> exc + string" where
  "test_blobs a =
     (if a = ''d159169d1050894d3ea3b98e1c965c4058208fe1'' then Inr ''license content''
      else if a = ''e42f952edc48e2c085c206166bf4f1ead4d4b058'' then Inr ''setup.cfg content''
      else Inl RetrievalError)"

definition test_files_metadata :: "(string \<times> string \<times> string) list" where
  "test_files_metadata =
     [(''LICENSE'', ''1.2.3'', ''d159169d1050894d3ea3b98e1c965c4058208fe1''),
      (''missing'', ''1.2.4'', ''0000000000000000000000000000000000000000''),
      (''setup.cfg'', ''1.2.5'', ''e42f952edc48e2c085c206166bf4f1ead4d4b058'')]"

text \<open>A stand-in for the digest in concrete runs: it succeeds and tags its input.\<close>

definition test_digest :: "string \<Rightarrow> exc + string" where
  "test_digest content = Inr (''sha256:'' @ content)"

text \<open>A clone operation that fails, as \<^verbatim>\<open>GitCommandError\<close> in the last unit test.\<close>

definition failing_clone :: "string \<Rightarrow> exc + repo" where
  "failing_clone url = Inl GitCommandError"

text \<open>
  What \<^verbatim>\<open>test_get_changes_between_two_tags\<close> asserts of the result on \<open>test_diff\<close>: two
  rows, the second one for \<open>setup.cfg\<close>, the entry whose \<open>b_blob\<close> is \<^verbatim>\<open>None\<close>.
\<close>

definition test_expected_changes :: "(string \<times> string \<times> string) list" where
  "test_expected_changes =
     [(''LICENSE'', ''1.2.3'', ''d159169d1050894d3ea3b98e1c965c4058208fe1''),
      (''setup.cfg'', ''1.2.3'', ''e42f952edc48e2c085c206166bf4f1ead4d4b058'')]"

text \<open>
  The end-to-end example of the specification (section 8): tag 1.2.3 holds \<open>LICENSE\<close> and
  \<open>setup.cfg\<close>, and between 1.2.3 and 1.2.4 the content of \<open>LICENSE\<close> changes.
\<close>

definition example_tag_a :: tag where
  "example_tag_a =
     \<lparr>tag_name = ''1.2.3'',
      tag_commit = \<lparr>commit_tree = [MockBlob 33188 ''LICENSE'' ''a1'',
                                    MockBlob 33188 ''setup.cfg'' ''a2'']\<rparr>\<rparr>"

definition example_tag_b :: tag where
  "example_tag_b =
     \<lparr>tag_name = ''1.2.4'',
      tag_commit = \<lparr>commit_tree = [MockBlob 33188 ''LICENSE'' ''a3'',
                                    MockBlob 33188 ''setup.cfg'' ''a2'']\<rparr>\<rparr>"

definition example_clone :: "string \<Rightarrow> exc + repo" where
  "example_clone url = Inr \<lparr>repo_tags = [example_tag_a, example_tag_b]\<rparr>"

definition example_diff :: "commit \<Rightarrow> commit \<Rightarrow> git_diff list" where
  "example_diff c c' =
     [MockDiff (Some (MockBlob 33188 ''LICENSE'' ''a1'')) (Some (MockBlob 33188 ''LICENSE'' ''a3''))]"

definition example_retrieve :: "string \<Rightarrow> exc + string" where
  "example_retrieve a = Inr a"

definition example_digest :: "string \<Rightarrow> exc + string" where
  "example_digest content =
     (if content = ''a1'' then Inr ''h1'' else if content = ''a2'' then Inr ''h2''
      else if content = ''a3'' then Inr ''h3'' else Inl ValueError)"

definition example_store :: session where
  "example_store =
     \<lparr>version_table = [\<lparr>version_technology = ''T'', version_version = ''1.2.3''\<rparr>,
                       \<lparr>version_technology = ''T'', version_version = ''1.2.4''\<rparr>],
      file_table = [\<lparr>file_technology = ''T'', file_path = ''LICENSE''\<rparr>,
                    \<lparr>file_technology = ''T'', file_path = ''setup.cfg''\<rparr>],
      hash_table = [\<lparr>hash_hash = ''h1'', hash_technology = ''T'', hash_versions = [''1.2.3'']\<rparr>,
                    \<lparr>hash_hash = ''h2'', hash_technology = ''T'', hash_versions = [''1.2.3'']\<rparr>,
                    \<lparr>hash_hash = ''h3'', hash_technology = ''T'', hash_versions = [''1.2.4'']\<rparr>]\<rparr>"

section \<open>Properties of the store\<close>

lemma filter_key_distinct:
  "distinct (map f xs) \<Longrightarrow> filter (\<lambda>r. f r = k) xs = [] \<or> (\<exists>r. filter (\<lambda>r. f r = k) xs = [r])"
proof (induction xs)
  case Nil
  then show ?case by simp
next
  case (Cons x xs)
  show ?case
  proof (cases "f x = k")
    case True
    from Cons.prems have "f x \<notin> f ` set xs" by simp
    with True have "\<forall>y \<in> set xs. f y \<noteq> k" by blast
    then have "filter (\<lambda>r. f r = k) xs = []" by (simp add: filter_empty_conv)
    with True show ?thesis by simp
  next
    case False
    with Cons show ?thesis by simp
  qed
qed

lemma filter_singletonD:
  "filter P xs = [r] \<Longrightarrow> r \<in> set xs \<and> P r"
proof -
  assume h: "filter P xs = [r]"
  have "r \<in> set (filter P xs)" by (simp add: h)
  then show ?thesis by simp
qed

lemma insert_or_update_hash_total:
  "hash_pk s \<Longrightarrow> \<exists>s'. insert_or_update_hash s h t v = Inr s'"
  using filter_key_distinct [of hash_hash "hash_table s" h]
  by (auto simp: hash_pk_def insert_or_update_hash_def add_hash_def Let_def filter_empty_conv)

lemma filter_update_versions:
  "filter (\<lambda>r. hash_hash r = h) (hash_table (update_versions s h vs)) =
   map (\<lambda>r. r\<lparr>hash_versions := vs\<rparr>) (filter (\<lambda>r. hash_hash r = h) (hash_table s))"
  by (induction "hash_table s" arbitrary: s) (auto simp: update_versions_def filter_map comp_def)

lemma insert_or_update_hash_new:
  assumes "filter (\<lambda>r. hash_hash r = h) (hash_table s) = []"
  shows "insert_or_update_hash s h t v =
           Inr (s\<lparr>hash_table := hash_table s @
                  [\<lparr>hash_hash = h, hash_technology = t, hash_versions = [v]\<rparr>]\<rparr>)"
  using assms by (auto simp: insert_or_update_hash_def add_hash_def filter_empty_conv)

lemma insert_or_update_hash_known:
  assumes "filter (\<lambda>r. hash_hash r = h) (hash_table s) = [r]" "v \<in> set (hash_versions r)"
  shows "insert_or_update_hash s h t v = Inr s"
  using assms by (simp add: insert_or_update_hash_def)

lemma insert_or_update_hash_extend:
  assumes "filter (\<lambda>r. hash_hash r = h) (hash_table s) = [r]" "v \<notin> set (hash_versions r)"
  shows "insert_or_update_hash s h t v = Inr (update_versions s h (hash_versions r @ [v]))"
  using assms by (simp add: insert_or_update_hash_def)

lemma insert_or_update_hash_many:
  assumes "filter (\<lambda>r. hash_hash r = h) (hash_table s) = x # y # zs"
  shows "insert_or_update_hash s h t v = Inl MultipleResultsFound"
  using assms by (simp add: insert_or_update_hash_def)

lemma insert_or_update_hash_twice:
  assumes "insert_or_update_hash s h t v = Inr s'"
  shows "insert_or_update_hash s' h t v = Inr s'"
proof (cases "filter (\<lambda>r. hash_hash r = h) (hash_table s)")
  case Nil
  with assms have s': "s' = s\<lparr>hash_table := hash_table s @
      [\<lparr>hash_hash = h, hash_technology = t, hash_versions = [v]\<rparr>]\<rparr>"
    by (simp add: insert_or_update_hash_new)
  have "filter (\<lambda>r. hash_hash r = h) (hash_table s') =
      [\<lparr>hash_hash = h, hash_technology = t, hash_versions = [v]\<rparr>]"
    by (simp add: s' Nil)
  then show ?thesis by (rule insert_or_update_hash_known) simp
next
  case (Cons r rs)
  show ?thesis
  proof (cases rs)
    case Nil
    with Cons have one: "filter (\<lambda>r. hash_hash r = h) (hash_table s) = [r]" by simp
    show ?thesis
    proof (cases "v \<in> set (hash_versions r)")
      case True
      with one assms have "s' = s" by (simp add: insert_or_update_hash_known)
      with one True show ?thesis by (simp add: insert_or_update_hash_known)
    next
      case False
      with one assms have s': "s' = update_versions s h (hash_versions r @ [v])"
        by (simp add: insert_or_update_hash_extend)
      have "filter (\<lambda>r. hash_hash r = h) (hash_table s') = [r\<lparr>hash_versions := hash_versions r @ [v]\<rparr>]"
        by (simp add: s' filter_update_versions one)
      then show ?thesis by (rule insert_or_update_hash_known) simp
    qed
  next
    case (Cons y zs)
    with \<open>filter (\<lambda>r. hash_hash r = h) (hash_table s) = r # rs\<close> assms show ?thesis
      by (simp add: insert_or_update_hash_many)
  qed
qed


lemma insert_or_update_hash_cases:
  assumes "insert_or_update_hash s h t v = Inr s'"
  obtains
    (new) "filter (\<lambda>r. hash_hash r = h) (hash_table s) = []"
      "s' = s\<lparr>hash_table := hash_table s @
               [\<lparr>hash_hash = h, hash_technology = t, hash_versions = [v]\<rparr>]\<rparr>"
  | (known) r where "filter (\<lambda>r. hash_hash r = h) (hash_table s) = [r]"
      "v \<in> set (hash_versions r)" "s' = s"
  | (extend) r where "filter (\<lambda>r. hash_hash r = h) (hash_table s) = [r]"
      "v \<notin> set (hash_versions r)" "s' = update_versions s h (hash_versions r @ [v])"
proof (cases "filter (\<lambda>r. hash_hash r = h) (hash_table s)")
  case Nil
  then have "insert_or_update_hash s h t v = Inr (s\<lparr>hash_table := hash_table s @
               [\<lparr>hash_hash = h, hash_technology = t, hash_versions = [v]\<rparr>]\<rparr>)"
    by (rule insert_or_update_hash_new)
  with assms have "s' = s\<lparr>hash_table := hash_table s @
               [\<lparr>hash_hash = h, hash_technology = t, hash_versions = [v]\<rparr>]\<rparr>" by simp
  with Nil show ?thesis by (rule new)
next
  case (Cons r rs)
  show ?thesis
  proof (cases rs)
    case Nil
    with Cons have one: "filter (\<lambda>r. hash_hash r = h) (hash_table s) = [r]" by simp
    show ?thesis
    proof (cases "v \<in> set (hash_versions r)")
      case True
      from one True have "insert_or_update_hash s h t v = Inr s"
        by (rule insert_or_update_hash_known)
      with assms have "s' = s" by simp
      with one True show ?thesis by (rule known)
    next
      case False
      from one False
      have "insert_or_update_hash s h t v = Inr (update_versions s h (hash_versions r @ [v]))"
        by (rule insert_or_update_hash_extend)
      with assms have "s' = update_versions s h (hash_versions r @ [v])" by simp
      with one False show ?thesis by (rule extend)
    qed
  next
    case (Cons y zs)
    with \<open>filter (\<lambda>r. hash_hash r = h) (hash_table s) = r # rs\<close> assms show ?thesis
      by (simp add: insert_or_update_hash_many)
  qed
qed

lemma insert_version_hash_table:
  "insert_version s t v = Inr s' \<Longrightarrow> hash_table s' = hash_table s"
  by (auto simp: insert_version_def add_version_def split: sum.splits option.splits if_splits)

lemma insert_file_hash_table:
  "insert_file s t p = Inr s' \<Longrightarrow> hash_table s' = hash_table s"
  by (auto simp: insert_file_def add_file_def split: sum.splits option.splits if_splits)

lemma map_key_update_versions:
  "map hash_hash (hash_table (update_versions s h vs)) = map hash_hash (hash_table s)"
  by (simp add: update_versions_def comp_def if_distrib cong: if_cong)

lemma map_technology_update_versions:
  "map hash_technology (hash_table (update_versions s h vs)) = map hash_technology (hash_table s)"
  by (simp add: update_versions_def comp_def if_distrib cong: if_cong)

lemma insert_or_update_hash_inv:
  assumes "insert_or_update_hash s h t v = Inr s'" "hash_inv s"
  shows "hash_inv s'"
  using assms(1)
proof (cases rule: insert_or_update_hash_cases)
  case new
  then have "h \<notin> hash_hash ` set (hash_table s)" by (auto simp: filter_empty_conv)
  with assms(2) new(2) show ?thesis by (auto simp: hash_inv_def hash_pk_def)
next
  case (known r)
  with assms(2) show ?thesis by simp
next
  case (extend r)
  from extend(1) have "r \<in> set (hash_table s)" by (auto dest: filter_singletonD)
  with assms(2) have "distinct (hash_versions r)" by (simp add: hash_inv_def)
  with extend(2) have d: "distinct (hash_versions r @ [v])" by simp
  from assms(2) have "hash_pk s'"
    by (simp add: hash_inv_def hash_pk_def extend(3) map_key_update_versions)
  moreover have "\<forall>x \<in> set (hash_table s'). distinct (hash_versions x)"
    using assms(2) d by (auto simp: extend(3) update_versions_def hash_inv_def)
  ultimately show ?thesis by (simp add: hash_inv_def)
qed

lemma apply_op_inv: "apply_op s operation = Inr s' \<Longrightarrow> hash_inv s \<Longrightarrow> hash_inv s'"
proof (cases operation)
  case (InsertVersion t v)
  assume "apply_op s operation = Inr s'" "hash_inv s"
  with InsertVersion show ?thesis
    by (simp add: hash_inv_def hash_pk_def insert_version_hash_table)
next
  case (InsertFile t p)
  assume "apply_op s operation = Inr s'" "hash_inv s"
  with InsertFile show ?thesis
    by (simp add: hash_inv_def hash_pk_def insert_file_hash_table)
next
  case (InsertOrUpdateHash h t v)
  assume "apply_op s operation = Inr s'" "hash_inv s"
  with InsertOrUpdateHash show ?thesis by (simp add: insert_or_update_hash_inv)
qed

lemma reachable_inv: "reachable s \<Longrightarrow> hash_inv s"
proof (induction rule: reachable.induct)
  case reachable_empty
  show ?case by (simp add: hash_inv_def hash_pk_def empty_session_def)
next
  case (reachable_step s operation s')
  then show ?case by (simp add: apply_op_inv)
qed

lemma insert_or_update_hash_grows:
  assumes "insert_or_update_hash s h t v = Inr s'"
  shows "grows s s'"
  using assms
proof (cases rule: insert_or_update_hash_cases)
  case new
  then show ?thesis by (auto simp: grows_def)
next
  case (known r)
  then show ?thesis by (auto simp: grows_def)
next
  case (extend r)
  show ?thesis unfolding grows_def
  proof
    fix x assume x: "x \<in> set (hash_table s)"
    show "\<exists>r' \<in> set (hash_table s'). hash_hash r' = hash_hash x
            \<and> set (hash_versions x) \<subseteq> set (hash_versions r')"
    proof (cases "hash_hash x = h")
      case True
      with x have "x \<in> set (filter (\<lambda>r. hash_hash r = h) (hash_table s))" by simp
      with extend(1) have "x = r" by simp
      with x True have "r\<lparr>hash_versions := hash_versions r @ [v]\<rparr> \<in> set (hash_table s')"
        by (force simp: extend(3) update_versions_def)
      then show ?thesis
        by (rule bexI [rotated]) (auto simp: \<open>x = r\<close>)
    next
      case False
      with x have "x \<in> set (hash_table s')" by (force simp: extend(3) update_versions_def)
      then show ?thesis by blast
    qed
  qed
qed

lemma apply_op_grows: "apply_op s operation = Inr s' \<Longrightarrow> grows s s'"
proof (cases operation)
  case (InsertVersion t v)
  assume "apply_op s operation = Inr s'"
  with InsertVersion have "hash_table s' = hash_table s" by (simp add: insert_version_hash_table)
  then show ?thesis by (auto simp: grows_def)
next
  case (InsertFile t p)
  assume "apply_op s operation = Inr s'"
  with InsertFile have "hash_table s' = hash_table s" by (simp add: insert_file_hash_table)
  then show ?thesis by (auto simp: grows_def)
next
  case (InsertOrUpdateHash h t v)
  assume "apply_op s operation = Inr s'"
  with InsertOrUpdateHash show ?thesis by (simp add: insert_or_update_hash_grows)
qed

lemma two_versions:
  assumes "filter (\<lambda>r. hash_hash r = h) (hash_table s) = []" "v1 \<noteq> v2"
  shows "\<exists>s1 s2. insert_or_update_hash s h t v1 = Inr s1
           \<and> insert_or_update_hash s1 h t v2 = Inr s2
           \<and> filter (\<lambda>r. hash_hash r = h) (hash_table s2) =
               [\<lparr>hash_hash = h, hash_technology = t, hash_versions = [v1, v2]\<rparr>]"
proof -
  let ?s1 = "s\<lparr>hash_table := hash_table s @
               [\<lparr>hash_hash = h, hash_technology = t, hash_versions = [v1]\<rparr>]\<rparr>"
  let ?r = "\<lparr>hash_hash = h, hash_technology = t, hash_versions = [v1]\<rparr>"
  have 1: "insert_or_update_hash s h t v1 = Inr ?s1"
    using assms(1) by (rule insert_or_update_hash_new)
  have f1: "filter (\<lambda>r. hash_hash r = h) (hash_table ?s1) = [?r]"
    using assms(1) by simp
  have 2: "insert_or_update_hash ?s1 h t v2 = Inr (update_versions ?s1 h (hash_versions ?r @ [v2]))"
    using f1 by (rule insert_or_update_hash_extend) (use assms(2) in simp)
  have "filter (\<lambda>r. hash_hash r = h) (hash_table (update_versions ?s1 h (hash_versions ?r @ [v2])))
         = [\<lparr>hash_hash = h, hash_technology = t, hash_versions = [v1, v2]\<rparr>]"
    by (simp only: filter_update_versions f1) simp
  with 1 2 show ?thesis by blast
qed


lemma insert_or_update_hash_other_tables:
  "insert_or_update_hash s h t v = Inr s' \<Longrightarrow>
     version_table s' = version_table s \<and> file_table s' = file_table s"
  by (erule insert_or_update_hash_cases) (simp_all add: update_versions_def)

subsection \<open>Idempotence of \<open>insert_or_update_hash\<close>\<close>

text \<open>
  Claim C1. \<open>insert_or_update_hash\<close> is idempotent. On every store that respects the
  primary key of the hash table the call succeeds; whenever a call succeeds, the same call
  on the resulting store succeeds and returns that store unchanged (so the row's versions
  are exactly as after the first call); and a call for a version that the row of that hash
  already lists returns the store unchanged.
\<close>

theorem insert_or_update_hash_idempotent:
  "(hash_pk s \<longrightarrow> (\<exists>s1. insert_or_update_hash s h t v = Inr s1))
   \<and> (insert_or_update_hash s h t v = Inr s' \<longrightarrow> insert_or_update_hash s' h t v = Inr s')
   \<and> (filter (\<lambda>x. hash_hash x = h) (hash_table s) = [r] \<and> v \<in> set (hash_versions r)
        \<longrightarrow> insert_or_update_hash s h t v = Inr s)"
  using insert_or_update_hash_total [of s h t v] insert_or_update_hash_twice [of s h t v s']
    insert_or_update_hash_known [of h s r v t]
  by blast

text \<open>
  The theorem at a concrete input: recording \<open>(h1, T, 1.2.3)\<close> in the empty store, twice.
\<close>

theorem insert_or_update_hash_idempotent_witness:
  "hash_pk empty_session
   \<and> insert_or_update_hash empty_session ''h1'' ''T'' ''1.2.3'' = Inr one_hash_session
   \<and> insert_or_update_hash one_hash_session ''h1'' ''T'' ''1.2.3'' = Inr one_hash_session
   \<and> filter (\<lambda>x. hash_hash x = ''h1'') (hash_table one_hash_session) =
        [\<lparr>hash_hash = ''h1'', hash_technology = ''T'', hash_versions = [''1.2.3'']\<rparr>]"
proof -
  have pk: "hash_pk empty_session" by (simp add: hash_pk_def empty_session_def)
  have first: "insert_or_update_hash empty_session ''h1'' ''T'' ''1.2.3'' = Inr one_hash_session"
    by (simp add: insert_or_update_hash_def add_hash_def empty_session_def one_hash_session_def)
  have row: "filter (\<lambda>x. hash_hash x = ''h1'') (hash_table one_hash_session) =
        [\<lparr>hash_hash = ''h1'', hash_technology = ''T'', hash_versions = [''1.2.3'']\<rparr>]"
    by (simp add: one_hash_session_def)
  from first
    insert_or_update_hash_idempotent [of empty_session "''h1''" "''T''" "''1.2.3''" one_hash_session]
  have "insert_or_update_hash one_hash_session ''h1'' ''T'' ''1.2.3'' = Inr one_hash_session"
    by blast
  with pk first row show ?thesis by blast
qed

subsection \<open>Deduplicated, growing version lists\<close>

text \<open>
  Claim C2. In every reachable store no two hash rows share a key and no row lists a
  version twice. Recording a hash that the store does not hold yet under two distinct
  versions \<open>v1\<close>, \<open>v2\<close> of a technology succeeds and leaves exactly one row for that
  hash, with the versions \<open>[v1, v2]\<close>. Every operation that succeeds keeps each hash row,
  with at least the versions it had.
\<close>

theorem hash_versions_deduplicated_and_growing:
  "(reachable s \<longrightarrow> hash_pk s \<and> (\<forall>r \<in> set (hash_table s). distinct (hash_versions r)))
   \<and> (filter (\<lambda>r. hash_hash r = h) (hash_table s) = [] \<and> v1 \<noteq> v2 \<longrightarrow>
        (\<exists>s1 s2. insert_or_update_hash s h t v1 = Inr s1
           \<and> insert_or_update_hash s1 h t v2 = Inr s2
           \<and> filter (\<lambda>r. hash_hash r = h) (hash_table s2) =
               [\<lparr>hash_hash = h, hash_technology = t, hash_versions = [v1, v2]\<rparr>]))
   \<and> (apply_op s operation = Inr s' \<longrightarrow> grows s s')"
  using reachable_inv [of s] two_versions [of h s v1 v2 t] apply_op_grows [of s operation s']
  unfolding hash_inv_def by blast

text \<open>
  The theorem at a concrete input: \<open>h1\<close> recorded for 1.2.3 and then for 1.2.4.
\<close>

theorem hash_versions_deduplicated_and_growing_witness:
  "reachable one_hash_session
   \<and> distinct (hash_versions (hd (hash_table one_hash_session)))
   \<and> filter (\<lambda>r. hash_hash r = ''h1'') (hash_table empty_session) = []
   \<and> ''1.2.3'' \<noteq> ''1.2.4''
   \<and> insert_or_update_hash one_hash_session ''h1'' ''T'' ''1.2.4'' = Inr two_version_session
   \<and> apply_op one_hash_session (InsertOrUpdateHash ''h1'' ''T'' ''1.2.4'') = Inr two_version_session
   \<and> grows one_hash_session two_version_session"
proof -
  have first: "apply_op empty_session (InsertOrUpdateHash ''h1'' ''T'' ''1.2.3'') = Inr one_hash_session"
    by (simp add: insert_or_update_hash_def add_hash_def empty_session_def one_hash_session_def)
  have reach: "reachable one_hash_session"
    using reachable_empty first by (rule reachable_step)
  have fresh: "filter (\<lambda>r. hash_hash r = ''h1'') (hash_table empty_session) = []"
    by (simp add: empty_session_def)
  have second: "apply_op one_hash_session (InsertOrUpdateHash ''h1'' ''T'' ''1.2.4'') = Inr two_version_session"
    by (simp add: insert_or_update_hash_def update_versions_def one_hash_session_def
        two_version_session_def)
  note inst = hash_versions_deduplicated_and_growing
      [of one_hash_session "''h1''" "''1.2.3''" "''1.2.4''" "''T''"
          "InsertOrUpdateHash ''h1'' ''T'' ''1.2.4''" two_version_session]
  from inst reach have "distinct (hash_versions (hd (hash_table one_hash_session)))"
    by (simp add: one_hash_session_def)
  moreover from inst second have "grows one_hash_session two_version_session" by blast
  ultimately show ?thesis using reach fresh second by simp
qed

subsection \<open>The technology of a hash row\<close>

text \<open>
  Claim C3. The technology of a hash row is written at creation only. When the store holds
  a row for \<open>h\<close>, a call of \<open>insert_or_update_hash\<close> for \<open>h\<close>, with any technology
  argument, keeps the technology and the key of every row; the row of \<open>h\<close> stays the only
  one for \<open>h\<close>, with its technology, and its versions are as before or extended by the new
  version. The version and file tables are untouched.
\<close>

theorem hash_technology_written_once:
  assumes "r \<in> set (hash_table s)" "hash_hash r = h"
    and "insert_or_update_hash s h t v = Inr s'"
  shows "map hash_technology (hash_table s') = map hash_technology (hash_table s)
       \<and> map hash_hash (hash_table s') = map hash_hash (hash_table s)
       \<and> (\<exists>r'. filter (\<lambda>x. hash_hash x = h) (hash_table s') = [r']
              \<and> hash_technology r' = hash_technology r \<and> hash_hash r' = h
              \<and> (hash_versions r' = hash_versions r \<or> hash_versions r' = hash_versions r @ [v]))
       \<and> version_table s' = version_table s \<and> file_table s' = file_table s"
proof -
  from assms(1,2) have mem: "r \<in> set (filter (\<lambda>x. hash_hash x = h) (hash_table s))" by simp
  note frame = insert_or_update_hash_other_tables [OF assms(3)]
  from assms(3) show ?thesis
  proof (cases rule: insert_or_update_hash_cases)
    case new
    with mem show ?thesis by simp
  next
    case (known r0)
    with mem have "r0 = r" by simp
    with known assms(2) show ?thesis by simp
  next
    case (extend r0)
    with mem have r0: "r0 = r" by simp
    have "filter (\<lambda>x. hash_hash x = h) (hash_table s') = [r\<lparr>hash_versions := hash_versions r @ [v]\<rparr>]"
      using extend(1) by (simp add: extend(3) filter_update_versions r0)
    moreover have "map hash_technology (hash_table s') = map hash_technology (hash_table s)"
      by (simp add: extend(3) map_technology_update_versions)
    moreover have "map hash_hash (hash_table s') = map hash_hash (hash_table s)"
      by (simp add: extend(3) map_key_update_versions)
    ultimately show ?thesis using frame assms(2) by simp
  qed
qed

text \<open>
  The theorem at a concrete input: the row of \<open>h1\<close>, created for technology \<open>T\<close>,
  receives version 1.2.4 from a call made for technology \<open>other\<close>.
\<close>

theorem hash_technology_written_once_witness:
  "\<lparr>hash_hash = ''h1'', hash_technology = ''T'', hash_versions = [''1.2.3'']\<rparr>
      \<in> set (hash_table one_hash_session)
   \<and> insert_or_update_hash one_hash_session ''h1'' ''other'' ''1.2.4'' = Inr two_version_session
   \<and> map hash_technology (hash_table two_version_session) = [''T'']
   \<and> ''other'' \<noteq> ''T''"
proof -
  have mem: "\<lparr>hash_hash = ''h1'', hash_technology = ''T'', hash_versions = [''1.2.3'']\<rparr>
      \<in> set (hash_table one_hash_session)" by (simp add: one_hash_session_def)
  have call: "insert_or_update_hash one_hash_session ''h1'' ''other'' ''1.2.4'' = Inr two_version_session"
    by (simp add: insert_or_update_hash_def update_versions_def one_hash_session_def
        two_version_session_def)
  from hash_technology_written_once [OF mem _ call]
  have "map hash_technology (hash_table two_version_session) =
        map hash_technology (hash_table one_hash_session)" by simp
  then have "map hash_technology (hash_table two_version_session) = [''T'']"
    by (simp add: one_hash_session_def)
  with mem call show ?thesis by simp
qed

subsection \<open>\<open>insert_version\<close> and the string form of a version\<close>

lemma insert_version_cases:
  assumes "insert_version s t v = Inr s'"
  obtains
    (new) "filter (\<lambda>r. version_technology r = t \<and> version_version r = str v) (version_table s) = []"
      "s' = s\<lparr>version_table := version_table s @
               [\<lparr>version_technology = t, version_version = str v\<rparr>]\<rparr>"
  | (known) "filter (\<lambda>r. version_technology r = t \<and> version_version r = str v) (version_table s)
               = [\<lparr>version_technology = t, version_version = str v\<rparr>]" "s' = s"
proof (cases "filter (\<lambda>r. version_technology r = t \<and> version_version r = str v) (version_table s)")
  case Nil
  with assms have "s' = s\<lparr>version_table := version_table s @
               [\<lparr>version_technology = t, version_version = str v\<rparr>]\<rparr>"
    by (auto simp: insert_version_def add_version_def filter_empty_conv split: if_splits)
  with Nil show ?thesis by (rule new)
next
  case (Cons e es)
  show ?thesis
  proof (cases es)
    case Nil
    with Cons have one: "filter (\<lambda>r. version_technology r = t \<and> version_version r = str v)
        (version_table s) = [e]" by simp
    from filter_singletonD [OF one]
    have "version_technology e = t \<and> version_version e = str v" by simp
    then have e: "e = \<lparr>version_technology = t, version_version = str v\<rparr>" by (cases e) simp
    from one assms have "s' = s" by (simp add: insert_version_def)
    with one [unfolded e] show ?thesis by (rule known)
  next
    case (Cons y zs)
    have "insert_version s t v = Inl MultipleResultsFound"
      unfolding insert_version_def \<open>filter _ _ = e # es\<close> Cons by simp
    with assms show ?thesis by simp
  qed
qed

lemma insert_version_total:
  assumes "version_pk s"
  shows "\<exists>s'. insert_version s t v = Inr s'"
proof -
  from assms filter_key_distinct [of "\<lambda>r. (version_technology r, version_version r)"
      "version_table s" "(t, str v)"]
  have "filter (\<lambda>r. version_technology r = t \<and> version_version r = str v) (version_table s) = []
      \<or> (\<exists>r. filter (\<lambda>r. version_technology r = t \<and> version_version r = str v) (version_table s) = [r])"
    by (simp add: version_pk_def)
  then show ?thesis
    by (auto simp: insert_version_def add_version_def filter_empty_conv)
qed

lemma insert_version_stores:
  assumes "insert_version s t v = Inr s'"
  shows "filter (\<lambda>r. version_technology r = t \<and> version_version r = str v) (version_table s')
           = [\<lparr>version_technology = t, version_version = str v\<rparr>]"
  using assms by (cases rule: insert_version_cases) simp_all

lemma insert_version_again:
  assumes "insert_version s t v = Inr s'" "str w = str v"
  shows "insert_version s' t w = Inr s'"
  using insert_version_stores [OF assms(1)] by (simp add: insert_version_def assms(2))

lemma str_nat_digit: "n < 10 \<Longrightarrow> str_nat n = [digit_char n]"
  by (simp add: str_nat.simps)

text \<open>
  Claim C10. \<open>insert_version\<close> stores \<open>str version\<close>. On a version table that respects
  its primary key the call succeeds. After a successful call the table holds exactly one row
  \<open>(technology, str version)\<close>, the table is the old one or the old one with that row
  appended, and the other tables are untouched. A later call with any value of the same
  string form (the integer 1, then the string "1") finds that row and adds nothing.
\<close>

theorem insert_version_stores_str:
  "(version_pk s \<longrightarrow> (\<exists>s1. insert_version s t v = Inr s1))
   \<and> (insert_version s t v = Inr s' \<longrightarrow>
        filter (\<lambda>r. version_technology r = t \<and> version_version r = str v) (version_table s')
           = [\<lparr>version_technology = t, version_version = str v\<rparr>]
        \<and> (version_table s' = version_table s
           \<or> version_table s' = version_table s @ [\<lparr>version_technology = t, version_version = str v\<rparr>])
        \<and> file_table s' = file_table s \<and> hash_table s' = hash_table s)
   \<and> (insert_version s t v = Inr s' \<and> str w = str v \<longrightarrow> insert_version s' t w = Inr s')"
proof (intro conjI impI)
  assume "version_pk s"
  then show "\<exists>s1. insert_version s t v = Inr s1" by (rule insert_version_total)
next
  assume a: "insert_version s t v = Inr s'"
  then show "filter (\<lambda>r. version_technology r = t \<and> version_version r = str v) (version_table s')
           = [\<lparr>version_technology = t, version_version = str v\<rparr>]" by (rule insert_version_stores)
  from a show "version_table s' = version_table s
           \<or> version_table s' = version_table s @ [\<lparr>version_technology = t, version_version = str v\<rparr>]"
    by (cases rule: insert_version_cases) simp_all
  from a show "file_table s' = file_table s" by (cases rule: insert_version_cases) simp_all
  from a show "hash_table s' = hash_table s" by (cases rule: insert_version_cases) simp_all
next
  assume "insert_version s t v = Inr s' \<and> str w = str v"
  then show "insert_version s' t w = Inr s'" by (blast intro: insert_version_again)
qed

text \<open>
  The theorem at a concrete input: version \<open>1\<close> given as an integer, then as a string.
\<close>

theorem insert_version_stores_str_witness:
  "version_pk empty_session
   \<and> str (PyInt 1) = str (PyStr ''1'')
   \<and> insert_version empty_session ''T'' (PyInt 1) = Inr one_version_session
   \<and> insert_version one_version_session ''T'' (PyStr ''1'') = Inr one_version_session
   \<and> length (version_table one_version_session) = 1"
proof -
  have pk: "version_pk empty_session" by (simp add: version_pk_def empty_session_def)
  have s: "str (PyStr ''1'') = str (PyInt 1)" by (simp add: str_nat_digit digit_char_def)
  have first: "insert_version empty_session ''T'' (PyInt 1) = Inr one_version_session"
    by (simp add: insert_version_def add_version_def empty_session_def one_version_session_def
        str_nat_digit digit_char_def)
  from first s
    insert_version_stores_str [of empty_session "''T''" "PyInt 1" one_version_session "PyStr ''1''"]
  have "insert_version one_version_session ''T'' (PyStr ''1'') = Inr one_version_session" by blast
  with pk s first show ?thesis by (simp add: one_version_session_def)
qed

subsection \<open>The filter of \<open>get_static_files\<close>\<close>

lemma match_plus_class_Nil: "match_re (Plus (Class P)) [] = []"
  by (subst match_re.simps(5)) simp

lemma match_plus_class_Cons:
  "match_re (Plus (Class P)) (c # cs) = (if P c then cs # match_re (Plus (Class P)) cs else [])"
  by (subst match_re.simps(5)) simp

lemmas regex_eval = re_search_def static_files_pattern_def static_class_def any_char_def
  in_range_def is_space_def match_plus_class_Nil match_plus_class_Cons

lemma search_index_html: "re_search static_files_pattern ''index.html''"
  by (simp add: regex_eval)

lemma search_readme_md: "re_search static_files_pattern ''readme.md''"
  by (simp add: regex_eval)

lemma search_main_js: "\<not> re_search static_files_pattern ''main.js''"
  by (simp add: regex_eval)

lemma search_run_cmd: "re_search static_files_pattern ''run.cmd''"
  by (simp add: regex_eval)

lemma search_cpp_md: "\<not> re_search static_files_pattern ''c++.md''"
  by (simp add: regex_eval)

text \<open>
  The example of the specification: over \<open>index.html\<close>, \<open>readme.md\<close> and \<open>main.js\<close> the
  filter returns the first two.
\<close>

lemma get_static_files_example:
  "get_static_files (files_session [''index.html'', ''readme.md'', ''main.js''])
     = [''index.html'', ''readme.md'']"
  by (simp add: get_static_files_def files_session_def search_index_html search_readme_md
      search_main_js)

text \<open>
  Claim C7 says that \<open>get_static_files\<close> returns exactly the paths that end with
  \<open>.html\<close>, \<open>.md\<close> or \<open>.txt\<close>, as the docstring of the method does. The pattern does
  not do that: its dots before \<open>html\<close>, \<open>md\<close> and \<open>txt\<close> are not escaped, so
  \<open>run.cmd\<close> is returned although it has none of the three extensions; and the
  character before that dot has to belong to the class, so \<open>c++.md\<close> is not returned
  although it ends with \<open>.md\<close>.
\<close>

theorem get_static_files_unescaped_dot:
  "get_static_files (files_session [''run.cmd'', ''c++.md'']) = [''run.cmd'']
   \<and> \<not> has_static_extension ''run.cmd'' \<and> has_static_extension ''c++.md''"
  by (simp add: get_static_files_def files_session_def search_run_cmd search_cpp_md
      has_static_extension_def ends_with_def)

section \<open>Properties of the git pipeline\<close>

subsection \<open>Tree Walker\<close>

lemma get_all_files_loop_eq:
  "get_all_files_loop file_list bs =
     file_list @ map (\<lambda>b. (blob_path b, blob_hexsha b)) (filter (\<lambda>b. S_ISREG (blob_mode b)) bs)"
  by (induction bs arbitrary: file_list) simp_all

lemma S_ISDIR_not_S_ISREG: "S_ISDIR m \<Longrightarrow> \<not> S_ISREG m"
  by (simp add: S_ISDIR_def S_ISREG_def)

text \<open>
  Claim C8. The Tree Walker emits, in traversal order, one (path, contentAddress) pair for
  each entry of the tree whose mode is that of a regular file, and nothing else. A
  directory mode is not a regular-file mode, and an entry that is not a regular file
  contributes nothing: the output is that of the entries before it followed by that of the
  entries after it.
\<close>

theorem get_all_files_from_commit_regular_only:
  "get_all_files_from_commit c =
     map (\<lambda>b. (blob_path b, blob_hexsha b)) (filter (\<lambda>b. S_ISREG (blob_mode b)) (commit_tree c))
   \<and> (\<forall>b \<in> set (commit_tree c). S_ISDIR (blob_mode b) \<longrightarrow> \<not> S_ISREG (blob_mode b))
   \<and> (commit_tree c = xs @ [b] @ ys \<and> \<not> S_ISREG (blob_mode b) \<longrightarrow>
        get_all_files_from_commit c =
          get_all_files_from_commit \<lparr>commit_tree = xs\<rparr> @ get_all_files_from_commit \<lparr>commit_tree = ys\<rparr>)"
  by (simp add: get_all_files_from_commit_def get_all_files_loop_eq S_ISDIR_not_S_ISREG)

text \<open>
  The theorem on the tree of \<^verbatim>\<open>test_get_all_files_from_commit\<close>: \<open>dist\<close> is dropped, and
  the result is the one that the unit test asserts.
\<close>

theorem get_all_files_from_commit_regular_only_witness:
  "commit_tree test_commit = [license_blob] @ [dist_blob] @ [setup_cfg_blob]
   \<and> S_ISDIR (blob_mode dist_blob) \<and> \<not> S_ISREG (blob_mode dist_blob)
   \<and> S_ISREG (blob_mode license_blob)
   \<and> get_all_files_from_commit test_commit =
        [(''LICENSE'', ''d159169d1050894d3ea3b98e1c965c4058208fe1''),
         (''setup.cfg'', ''e42f952edc48e2c085c206166bf4f1ead4d4b058'')]"
proof -
  have tree: "commit_tree test_commit = [license_blob] @ [dist_blob] @ [setup_cfg_blob]"
    by (simp add: test_commit_def)
  have dir: "S_ISDIR (blob_mode dist_blob)"
    by (simp add: dist_blob_def MockBlob_def S_ISDIR_def S_IFMT_def)
  have reg: "S_ISREG (blob_mode license_blob)" "S_ISREG (blob_mode setup_cfg_blob)"
    by (simp_all add: license_blob_def setup_cfg_blob_def MockBlob_def S_ISREG_def S_IFMT_def)
  note inst = get_all_files_from_commit_regular_only
      [of test_commit "[license_blob]" dist_blob "[setup_cfg_blob]"]
  from inst tree dir have nreg: "\<not> S_ISREG (blob_mode dist_blob)" by simp
  from inst tree nreg have "get_all_files_from_commit test_commit =
      get_all_files_from_commit \<lparr>commit_tree = [license_blob]\<rparr>
      @ get_all_files_from_commit \<lparr>commit_tree = [setup_cfg_blob]\<rparr>" by blast
  with reg have "get_all_files_from_commit test_commit =
        [(''LICENSE'', ''d159169d1050894d3ea3b98e1c965c4058208fe1''),
         (''setup.cfg'', ''e42f952edc48e2c085c206166bf4f1ead4d4b058'')]"
    by (simp add: get_all_files_from_commit_def license_blob_def setup_cfg_blob_def MockBlob_def)
  with tree dir nreg reg show ?thesis by simp
qed

subsection \<open>Diff Walker\<close>

lemma get_changes_loop_eq:
  "get_changes_loop version files ds =
     files @ concat (map (\<lambda>d. case b_blob d of None \<Rightarrow> []
                              | Some b \<Rightarrow> [(blob_path b, version, blob_hexsha b)]) ds)"
  by (induction ds arbitrary: files) (simp_all split: option.splits)

lemma get_changes_loop_rows:
  "row \<in> set (get_changes_loop version [] ds) \<Longrightarrow>
     \<exists>d \<in> set ds. \<exists>b. b_blob d = Some b \<and> row = (blob_path b, version, blob_hexsha b)"
proof -
  assume "row \<in> set (get_changes_loop version [] ds)"
  then obtain d where d: "d \<in> set ds"
    and row: "row \<in> set (case b_blob d of None \<Rightarrow> []
                          | Some b \<Rightarrow> [(blob_path b, version, blob_hexsha b)])"
    by (auto simp: get_changes_loop_eq)
  show ?thesis
  proof (cases "b_blob d")
    case None
    with row show ?thesis by simp
  next
    case (Some b)
    with row have "row = (blob_path b, version, blob_hexsha b)" by simp
    with d Some show ?thesis by blast
  qed
qed

lemma get_changes_loop_length:
  "length (get_changes_loop version [] ds) = length (filter (\<lambda>d. b_blob d \<noteq> None) ds)"
  by (induction ds) (auto simp: get_changes_loop_eq split: option.splits)

text \<open>
  The walker of section 4.3, as modelled above: every row that it emits for a pair of tags
  comes from a diff entry whose new side is present, and carries the path and content
  address of that side and the label of the second tag. There is one row per entry with a
  new side, and an entry without new side contributes no row. This is a property of the
  specification's description of the walker; the unit test of the function itself expects
  otherwise (see the last lemma of this subsection).
\<close>

lemma get_changes_between_two_tags_no_deletion:
  "(\<forall>row \<in> set (get_changes_between_two_tags diff tag_a tag_b).
      \<exists>d \<in> set (diff (tag_commit tag_a) (tag_commit tag_b)). \<exists>b.
        b_blob d = Some b \<and> row = (blob_path b, tag_name tag_b, blob_hexsha b))
   \<and> length (get_changes_between_two_tags diff tag_a tag_b) =
       length (filter (\<lambda>d. b_blob d \<noteq> None) (diff (tag_commit tag_a) (tag_commit tag_b)))
   \<and> (diff (tag_commit tag_a) (tag_commit tag_b) = xs @ [d] @ ys \<and> b_blob d = None \<longrightarrow>
        get_changes_between_two_tags diff tag_a tag_b =
          get_changes_loop (tag_name tag_b) [] xs @ get_changes_loop (tag_name tag_b) [] ys)"
proof (intro conjI ballI impI)
  fix row assume "row \<in> set (get_changes_between_two_tags diff tag_a tag_b)"
  then show "\<exists>d \<in> set (diff (tag_commit tag_a) (tag_commit tag_b)). \<exists>b.
        b_blob d = Some b \<and> row = (blob_path b, tag_name tag_b, blob_hexsha b)"
    unfolding get_changes_between_two_tags_def by (rule get_changes_loop_rows)
next
  show "length (get_changes_between_two_tags diff tag_a tag_b) =
       length (filter (\<lambda>d. b_blob d \<noteq> None) (diff (tag_commit tag_a) (tag_commit tag_b)))"
    unfolding get_changes_between_two_tags_def by (rule get_changes_loop_length)
next
  assume "diff (tag_commit tag_a) (tag_commit tag_b) = xs @ [d] @ ys \<and> b_blob d = None"
  then show "get_changes_between_two_tags diff tag_a tag_b =
          get_changes_loop (tag_name tag_b) [] xs @ get_changes_loop (tag_name tag_b) [] ys"
    by (simp add: get_changes_between_two_tags_def get_changes_loop_eq)
qed

text \<open>
  The theorem on the diff list of \<^verbatim>\<open>test_get_changes_between_two_tags\<close>, whose last entry
  has no new side.
\<close>

lemma get_changes_between_two_tags_no_deletion_witness:
  "test_diff test_commit test_commit =
     [MockDiff (Some dist_blob) None, MockDiff None (Some license_blob)]
       @ [MockDiff (Some setup_cfg_blob) None] @ []
   \<and> b_blob (MockDiff (Some setup_cfg_blob) None) = None
   \<and> get_changes_between_two_tags test_diff (MockTag ''1.2.3'') (MockTag ''1.2.3'') =
       [(''LICENSE'', ''1.2.3'', ''d159169d1050894d3ea3b98e1c965c4058208fe1'')]"
proof -
  have split: "test_diff (tag_commit (MockTag ''1.2.3'')) (tag_commit (MockTag ''1.2.3'')) =
     [MockDiff (Some dist_blob) None, MockDiff None (Some license_blob)]
       @ [MockDiff (Some setup_cfg_blob) None] @ []"
    by (simp add: test_diff_def)
  have del: "b_blob (MockDiff (Some setup_cfg_blob) None) = None" by (simp add: MockDiff_def)
  from split del get_changes_between_two_tags_no_deletion
      [of test_diff "MockTag ''1.2.3''" "MockTag ''1.2.3''"
          "[MockDiff (Some dist_blob) None, MockDiff None (Some license_blob)]"
          "MockDiff (Some setup_cfg_blob) None" "[]"]
  have "get_changes_between_two_tags test_diff (MockTag ''1.2.3'') (MockTag ''1.2.3'') =
      get_changes_loop (tag_name (MockTag ''1.2.3'')) []
        [MockDiff (Some dist_blob) None, MockDiff None (Some license_blob)]
      @ get_changes_loop (tag_name (MockTag ''1.2.3'')) [] []" by blast
  then have "get_changes_between_two_tags test_diff (MockTag ''1.2.3'') (MockTag ''1.2.3'') =
       [(''LICENSE'', ''1.2.3'', ''d159169d1050894d3ea3b98e1c965c4058208fe1'')]"
    by (simp add: MockDiff_def MockTag_def license_blob_def MockBlob_def)
  with del show ?thesis by (simp add: test_diff_def)
qed

text \<open>
  On that diff list the walker of section 4.3 emits the row of \<open>LICENSE\<close> only. The unit
  test asserts two rows, the second one for \<open>setup.cfg\<close>, whose \<open>b_blob\<close> is \<^verbatim>\<open>None\<close>:
  the specification and the unit test differ on the entry with an old side only.
\<close>

lemma unit_test_expects_row_without_new_side:
  "get_changes_between_two_tags test_diff (MockTag ''1.2.3'') (MockTag ''1.2.3'')
     \<noteq> test_expected_changes"
  by (simp add: get_changes_between_two_tags_def test_diff_def MockDiff_def MockTag_def
      license_blob_def MockBlob_def test_expected_changes_def)

subsection \<open>Half-open interval of versions\<close>

lemma get_diff_versions_loop_started:
  "map tag_name ts = mid @ l # post \<Longrightarrow> l \<notin> set mid \<Longrightarrow>
     get_diff_versions_loop True f l acc ts = acc @ mid"
proof (induction mid arbitrary: ts acc)
  case Nil
  then obtain t ts' where "ts = t # ts'" "tag_name t = l" by auto
  then show ?case by simp
next
  case (Cons m mid)
  then obtain t ts' where ts: "ts = t # ts'" "tag_name t = m" "map tag_name ts' = mid @ l # post"
    by auto
  from Cons.prems(2) have "m \<noteq> l" "l \<notin> set mid" by auto
  with Cons.IH [OF ts(3), of "acc @ [m]"] ts show ?case by simp
qed

lemma get_diff_versions_loop_before:
  "map tag_name ts = pre @ f # mid @ l # post \<Longrightarrow> f \<notin> set pre \<Longrightarrow> l \<notin> set pre \<Longrightarrow>
   l \<notin> set (f # mid) \<Longrightarrow>
     get_diff_versions_loop False f l acc ts = acc @ f # mid"
proof (induction pre arbitrary: ts)
  case Nil
  then obtain t ts' where ts: "ts = t # ts'" "tag_name t = f" "map tag_name ts' = mid @ l # post"
    by auto
  from Nil.prems(4) have "f \<noteq> l" "l \<notin> set mid" by auto
  with get_diff_versions_loop_started [OF ts(3), of f "acc @ [f]"] ts show ?case by simp
next
  case (Cons p pre)
  then obtain t ts' where ts: "ts = t # ts'" "tag_name t = p"
      "map tag_name ts' = pre @ f # mid @ l # post"
    by auto
  from Cons.prems have "p \<noteq> f" "p \<noteq> l" "f \<notin> set pre" "l \<notin> set pre" by auto
  with Cons.IH [OF ts(3)] Cons.prems(4) ts show ?case by simp
qed

lemma get_diff_versions_loop_excludes_last:
  "l \<notin> set acc \<Longrightarrow> l \<notin> set (get_diff_versions_loop started f l acc ts)"
  by (induction ts arbitrary: started acc) auto

text \<open>
  Claim C9. Over a list of tags with pairwise different names in which \<open>first\<close> occurs
  before \<open>last\<close>, the helper returns exactly the labels from \<open>first\<close> (included) up to
  \<open>last\<close> (excluded), in order: none of the labels before \<open>first\<close>, not \<open>last\<close>, and none
  of the labels after \<open>last\<close>. Whatever the list, \<open>last\<close> is never part of the result.
\<close>

theorem get_diff_versions_half_open:
  "(distinct (map tag_name versions)
      \<and> map tag_name versions = pre @ first_version # mid @ last_version # post
    \<longrightarrow> get_diff_versions first_version last_version versions = first_version # mid)
   \<and> last_version \<notin> set (get_diff_versions first_version last_version versions)"
proof (intro conjI impI)
  assume a: "distinct (map tag_name versions)
      \<and> map tag_name versions = pre @ first_version # mid @ last_version # post"
  then have d: "distinct (map tag_name versions)"
    and n: "map tag_name versions = pre @ first_version # mid @ last_version # post"
    by blast+
  from d [unfolded n] have "first_version \<notin> set pre" "last_version \<notin> set pre"
      "last_version \<notin> set (first_version # mid)" by auto
  with n show "get_diff_versions first_version last_version versions = first_version # mid"
    by (simp add: get_diff_versions_def get_diff_versions_loop_before)
next
  show "last_version \<notin> set (get_diff_versions first_version last_version versions)"
    unfolding get_diff_versions_def by (rule get_diff_versions_loop_excludes_last) simp
qed

text \<open>
  The theorem on the tags of \<^verbatim>\<open>test_get_diff_versions\<close>: the three labels that the unit
  test expects.
\<close>

theorem get_diff_versions_half_open_witness:
  "distinct (map tag_name test_versions)
   \<and> map tag_name test_versions = [] @ ''1.2.3'' # [''1.2.4'', ''1.3''] @ ''1.4'' # [''1.5.0'']
   \<and> get_diff_versions ''1.2.3'' ''1.4'' test_versions = [''1.2.3'', ''1.2.4'', ''1.3'']"
proof -
  have names: "map tag_name test_versions =
      [] @ ''1.2.3'' # [''1.2.4'', ''1.3''] @ ''1.4'' # [''1.5.0'']"
    by (simp add: test_versions_def MockTag_def)
  have d: "distinct (map tag_name test_versions)"
    by (simp add: test_versions_def MockTag_def)
  from d names get_diff_versions_half_open
      [of test_versions "[]" "''1.2.3''" "[''1.2.4'', ''1.3'']" "''1.4''" "[''1.5.0'']"]
  have "get_diff_versions ''1.2.3'' ''1.4'' test_versions = ''1.2.3'' # [''1.2.4'', ''1.3'']"
    by blast
  with d names show ?thesis by simp
qed

subsection \<open>Content Hasher\<close>

lemma hash_files_loop_eq:
  "hash_files_loop retrieve get_hash files_info es =
     files_info @ concat (map (\<lambda>(p, v, a). case hashes_to retrieve get_hash a of
                                   None \<Rightarrow> [] | Some h \<Rightarrow> [(p, v, h)]) es)"
  by (induction es arbitrary: files_info)
     (auto simp: hashes_to_def split: sum.splits)

text \<open>
  Claim C6. The Content Hasher treats every entry by itself: the output for a sequence is
  the output for the entries before an entry, then the triple of that entry if it can be
  hashed, then the output for the entries after it. When the retrieval or the digest of
  one entry fails, only that entry is missing from the output; the entries before and
  after it are processed as they would be without it. The function has a result for every
  input.
\<close>

theorem hash_files_drops_only_failing_entry:
  "hash_files retrieve get_hash (xs @ [(p, v, a)] @ ys) =
     hash_files retrieve get_hash xs
       @ (case hashes_to retrieve get_hash a of None \<Rightarrow> [] | Some h \<Rightarrow> [(p, v, h)])
       @ hash_files retrieve get_hash ys
   \<and> (retrieve a = Inl e \<or> (retrieve a = Inr content \<and> get_hash content = Inl e) \<longrightarrow>
        hash_files retrieve get_hash (xs @ [(p, v, a)] @ ys) =
          hash_files retrieve get_hash xs @ hash_files retrieve get_hash ys)"
  by (auto simp: hash_files_def hash_files_loop_eq hashes_to_def)

text \<open>
  The theorem at a concrete input: the two entries of \<^verbatim>\<open>test_hash_files\<close> with an entry
  between them whose content address the blob store does not know.
\<close>

theorem hash_files_drops_only_failing_entry_witness:
  "test_blobs ''0000000000000000000000000000000000000000'' = Inl RetrievalError
   \<and> test_files_metadata =
       [(''LICENSE'', ''1.2.3'', ''d159169d1050894d3ea3b98e1c965c4058208fe1'')]
       @ [(''missing'', ''1.2.4'', ''0000000000000000000000000000000000000000'')]
       @ [(''setup.cfg'', ''1.2.5'', ''e42f952edc48e2c085c206166bf4f1ead4d4b058'')]
   \<and> hash_files test_blobs test_digest test_files_metadata =
       [(''LICENSE'', ''1.2.3'', ''sha256:license content''),
        (''setup.cfg'', ''1.2.5'', ''sha256:setup.cfg content'')]"
proof -
  have fail: "test_blobs ''0000000000000000000000000000000000000000'' = Inl RetrievalError"
    by (simp add: test_blobs_def)
  have split: "test_files_metadata =
       [(''LICENSE'', ''1.2.3'', ''d159169d1050894d3ea3b98e1c965c4058208fe1'')]
       @ [(''missing'', ''1.2.4'', ''0000000000000000000000000000000000000000'')]
       @ [(''setup.cfg'', ''1.2.5'', ''e42f952edc48e2c085c206166bf4f1ead4d4b058'')]"
    by (simp add: test_files_metadata_def)
  from fail hash_files_drops_only_failing_entry
      [of test_blobs test_digest
          "[(''LICENSE'', ''1.2.3'', ''d159169d1050894d3ea3b98e1c965c4058208fe1'')]"
          "''missing''" "''1.2.4''" "''0000000000000000000000000000000000000000''"
          "[(''setup.cfg'', ''1.2.5'', ''e42f952edc48e2c085c206166bf4f1ead4d4b058'')]"
          RetrievalError]
  have "hash_files test_blobs test_digest
          ([(''LICENSE'', ''1.2.3'', ''d159169d1050894d3ea3b98e1c965c4058208fe1'')]
           @ [(''missing'', ''1.2.4'', ''0000000000000000000000000000000000000000'')]
           @ [(''setup.cfg'', ''1.2.5'', ''e42f952edc48e2c085c206166bf4f1ead4d4b058'')]) =
        hash_files test_blobs test_digest
          [(''LICENSE'', ''1.2.3'', ''d159169d1050894d3ea3b98e1c965c4058208fe1'')]
        @ hash_files test_blobs test_digest
          [(''setup.cfg'', ''1.2.5'', ''e42f952edc48e2c085c206166bf4f1ead4d4b058'')]"
    by blast
  then have "hash_files test_blobs test_digest test_files_metadata =
       [(''LICENSE'', ''1.2.3'', ''sha256:license content''),
        (''setup.cfg'', ''1.2.5'', ''sha256:setup.cfg content'')]"
    by (simp add: split hash_files_def test_blobs_def test_digest_def)
  with fail split show ?thesis by simp
qed

subsection \<open>Orchestrator\<close>

text \<open>
  Claim C5. When the clone fails, the run ends as an acquisition failure and returns the
  store it was given: no tag is processed and no row is written to the version, file or
  hash table.
\<close>

theorem clone_failure_writes_nothing:
  "clone_repository repo_url = Inl e \<longrightarrow>
     clone_checkout_and_compute_hashs clone_repository diff retrieve get_hash s repo_url technology
       = Inr (AcquisitionFailure e, s)"
  by (simp add: clone_checkout_and_compute_hashs_def)

text \<open>
  The theorem at a concrete input: the clone raises \<^verbatim>\<open>GitCommandError\<close>, as in
  \<^verbatim>\<open>test_clone_checkout_and_compute_hashs\<close>, on a store that already holds a row.
\<close>

theorem clone_failure_writes_nothing_witness:
  "failing_clone ''http://foo.bar/foobar.git'' = Inl GitCommandError
   \<and> clone_checkout_and_compute_hashs failing_clone example_diff example_retrieve example_digest
        one_hash_session ''http://foo.bar/foobar.git'' ''foobar''
       = Inr (AcquisitionFailure GitCommandError, one_hash_session)"
proof -
  have f: "failing_clone ''http://foo.bar/foobar.git'' = Inl GitCommandError"
    by (simp add: failing_clone_def)
  with clone_failure_writes_nothing
      [of failing_clone "''http://foo.bar/foobar.git''" GitCommandError example_diff
          example_retrieve example_digest one_hash_session "''foobar''"]
  show ?thesis by blast
qed

text \<open>
  When the clone succeeds the run does write: on the end-to-end example of the
  specification it leaves the two versions, the two files and the three hash rows.
\<close>

lemma example_files:
  "hash_files example_retrieve example_digest
     (get_tag_files example_tag_a @ get_diff_files example_diff [example_tag_a, example_tag_b])
   = [(''LICENSE'', ''1.2.3'', ''h1''), (''setup.cfg'', ''1.2.3'', ''h2''),
      (''LICENSE'', ''1.2.4'', ''h3'')]"
  by (simp add: hash_files_def get_tag_files_def get_all_files_from_commit_def
      get_changes_between_two_tags_def example_tag_a_def example_tag_b_def example_diff_def
      example_retrieve_def example_digest_def MockBlob_def MockDiff_def S_ISREG_def S_IFMT_def)


lemma example_versions:
  "insert_versions empty_session ''T'' (map (\<lambda>t. PyStr (tag_name t)) [example_tag_a, example_tag_b])
   = Inr \<lparr>version_table = [\<lparr>version_technology = ''T'', version_version = ''1.2.3''\<rparr>,
                            \<lparr>version_technology = ''T'', version_version = ''1.2.4''\<rparr>],
           file_table = [], hash_table = []\<rparr>"
  by (simp add: insert_version_def add_version_def empty_session_def example_tag_a_def
      example_tag_b_def)

lemma example_save_files:
  "save_files \<lparr>version_table = [\<lparr>version_technology = ''T'', version_version = ''1.2.3''\<rparr>,
                                \<lparr>version_technology = ''T'', version_version = ''1.2.4''\<rparr>],
               file_table = [], hash_table = []\<rparr> ''T''
     [(''LICENSE'', ''1.2.3'', ''h1''), (''setup.cfg'', ''1.2.3'', ''h2''),
      (''LICENSE'', ''1.2.4'', ''h3'')]
   = Inr example_store"
  by (simp add: insert_file_def add_file_def insert_or_update_hash_def add_hash_def
      example_store_def)

lemma end_to_end_example:
  "clone_checkout_and_compute_hashs example_clone example_diff example_retrieve example_digest
     empty_session ''http://foo.bar/foobar.git'' ''T''
   = Inr (Completed, example_store)"
  by (simp add: clone_checkout_and_compute_hashs_def example_clone_def save_hashes_def
      example_files example_versions example_save_files
      del: insert_versions.simps list.map get_diff_files.simps save_files.simps)

end
